theory Spec2Isabelle
  imports Main "HOL-Library.Word"
begin

section \<open>Values crossing the event bus\<close>

text \<open>
  The bridge in \<^verbatim>\<open>light_peer_chain_bridge.py\<close> relays five chain-data queries over an
  event bus. Its payloads (block headers, block bodies, receipts, accounts, byte strings)
  are opaque to it: it never looks inside them. Python values are dynamically typed, so
  one universe of values is used for every payload: \<open>PyNone\<close> is Python's \<^verbatim>\<open>None\<close>,
  \<open>PyBytes\<close> a byte string, \<open>PyObject c b\<close> an opaque object of class \<open>c\<close> with
  contents \<open>b\<close>, \<open>PyList\<close> a list.
\<close>

type_synonym bytes = "8 word list"
type_synonym Hash32 = bytes
type_synonym Address = bytes

datatype pyval = PyNone | PyBytes bytes | PyObject string bytes | PyList "pyval list"

text \<open>An exception instance: its class name and its message.\<close>

datatype exception = Exception (exc_class: string) (exc_message: string)

definition AttributeError :: "string \<Rightarrow> exception" where
  "AttributeError name = Exception ''AttributeError'' name"

section \<open>The request/response event catalog\<close>

text \<open>
  The five response dataclasses. A class is a value (\<^verbatim>\<open>expected_response_type()\<close> returns
  one); an instance records its class, its single payload field and its \<^verbatim>\<open>error\<close>
  field (\<^verbatim>\<open>error: Exception = None\<close>).
\<close>

datatype response_type =
    BlockHeaderResponse
  | BlockBodyResponse
  | ReceiptsResponse
  | AccountResponse
  | BytesResponse

record response =
  response_class :: response_type
  payload :: pyval
  error :: "exception option"

text \<open>The name each dataclass gives its payload field.\<close>

fun payload_field :: "response_type \<Rightarrow> string" where
  "payload_field BlockHeaderResponse = ''block_header''"
| "payload_field BlockBodyResponse = ''block_body''"
| "payload_field ReceiptsResponse = ''receipts''"
| "payload_field AccountResponse = ''account''"
| "payload_field BytesResponse = ''bytez''"

text \<open>
  Calling a response class with two positional arguments, \<^verbatim>\<open>cls(val, error)\<close>: the
  generated constructor stores the first in the payload field and the second in
  \<^verbatim>\<open>error\<close>, whatever their values.
\<close>

definition new_response :: "response_type \<Rightarrow> pyval \<Rightarrow> exception option \<Rightarrow> response" where
  "new_response cls val err = \<lparr>response_class = cls, payload = val, error = err\<rparr>"

text \<open>
  Reading a payload field by name, as in \<^verbatim>\<open>response.block_header\<close>: an instance of
  another class has no such attribute and Python raises \<^verbatim>\<open>AttributeError\<close>.
\<close>

definition getattr_payload :: "response \<Rightarrow> string \<Rightarrow> exception + pyval" where
  "getattr_payload r name =
     (if payload_field (response_class r) = name then Inr (payload r)
      else Inl (AttributeError name))"

text \<open>The five request dataclasses, with their fields in declaration order.\<close>

datatype request =
    GetBlockHeaderByHashRequest Hash32
  | GetBlockBodyByHashRequest Hash32
  | GetReceiptsRequest Hash32
  | GetAccountRequest Hash32 Address
  | GetContractCodeRequest Hash32 Address

text \<open>The request classes themselves, as \<^verbatim>\<open>stream\<close> takes them.\<close>

datatype request_type =
    GetBlockHeaderByHashRequest_class
  | GetBlockBodyByHashRequest_class
  | GetReceiptsRequest_class
  | GetAccountRequest_class
  | GetContractCodeRequest_class

fun type_of :: "request \<Rightarrow> request_type" where
  "type_of (GetBlockHeaderByHashRequest _) = GetBlockHeaderByHashRequest_class"
| "type_of (GetBlockBodyByHashRequest _) = GetBlockBodyByHashRequest_class"
| "type_of (GetReceiptsRequest _) = GetReceiptsRequest_class"
| "type_of (GetAccountRequest _ _) = GetAccountRequest_class"
| "type_of (GetContractCodeRequest _ _) = GetContractCodeRequest_class"

text \<open>
  \<^verbatim>\<open>expected_response_type\<close> is a static method of each request class: called on an
  instance it is looked up on the instance's class and receives no argument.
\<close>

fun expected_response_type :: "request \<Rightarrow> response_type" where
  "expected_response_type (GetBlockHeaderByHashRequest _) = BlockHeaderResponse"
| "expected_response_type (GetBlockBodyByHashRequest _) = BlockBodyResponse"
| "expected_response_type (GetReceiptsRequest _) = ReceiptsResponse"
| "expected_response_type (GetAccountRequest _ _) = AccountResponse"
| "expected_response_type (GetContractCodeRequest _ _) = BytesResponse"

text \<open>Field reads on a request. Every request class has \<^verbatim>\<open>block_hash\<close>; only two have
  \<^verbatim>\<open>address\<close>.\<close>

fun block_hash :: "request \<Rightarrow> Hash32" where
  "block_hash (GetBlockHeaderByHashRequest h) = h"
| "block_hash (GetBlockBodyByHashRequest h) = h"
| "block_hash (GetReceiptsRequest h) = h"
| "block_hash (GetAccountRequest h _) = h"
| "block_hash (GetContractCodeRequest h _) = h"

fun address :: "request \<Rightarrow> exception + Address" where
  "address (GetAccountRequest _ a) = Inr a"
| "address (GetContractCodeRequest _ a) = Inr a"
| "address _ = Inl (AttributeError ''address'')"

text \<open>
  The binding of request classes to response classes as the specification's catalog
  lists it, to compare \<open>expected_response_type\<close> with.
\<close>

fun spec_binding :: "request_type \<Rightarrow> response_type" where
  "spec_binding GetBlockHeaderByHashRequest_class = BlockHeaderResponse"
| "spec_binding GetBlockBodyByHashRequest_class = BlockBodyResponse"
| "spec_binding GetReceiptsRequest_class = ReceiptsResponse"
| "spec_binding GetAccountRequest_class = AccountResponse"
| "spec_binding GetContractCodeRequest_class = BytesResponse"

section \<open>The event bus, at its boundary\<close>

text \<open>
  The bus is an external library. A request event reaches the relay carrying the
  addressing data the bus attached to it; \<^verbatim>\<open>event.broadcast_config()\<close> hands it back.
  The bridge only passes that value on, so its type is a parameter \<open>'cfg\<close>.
\<close>

record 'cfg event =
  request :: request
  broadcast_config :: 'cfg

text \<open>
  \<^verbatim>\<open>event_bus.stream(T)\<close>: of the events that arrive until the service is stopped, the
  instances of class \<open>T\<close>, in arrival order.
\<close>

definition stream :: "request_type \<Rightarrow> 'cfg event list \<Rightarrow> 'cfg event list" where
  "stream T incoming = filter (\<lambda>event. type_of (request event) = T) incoming"

text \<open>
  Modelled from the spec: \<^verbatim>\<open>event_bus.broadcast(item, config)\<close> belongs to the bus, an
  external library. The specification gives it as publishing a response to the location
  the addressing data identifies, and says that a provider exception must be convertible
  to a value the bus can transport, an impossible conversion being fatal and no normal
  error path. So \<open>broadcast\<close> either publishes the item or raises. Which items the bus
  refuses, and with what exception, is the bus's own, and may depend on the whole item:
  the relay's endpoint is given by that function (\<open>None\<close>: the item is transported).
  The state of the endpoint is the list of what has been published through it, each
  item with the configuration it was addressed with.
\<close>

type_synonym 'cfg published = "(response \<times> 'cfg) list"

type_synonym refusal = "response \<Rightarrow> exception option"

definition broadcast ::
  "refusal \<Rightarrow> response \<Rightarrow> 'cfg \<Rightarrow> 'cfg published \<Rightarrow> exception + 'cfg published" where
  "broadcast event_bus item config bus =
     (case event_bus item of
        Some e \<Rightarrow> Inl e
      | None \<Rightarrow> Inr (bus @ [(item, config)]))"

text \<open>
  \<^verbatim>\<open>async for event in <stream>: <body>\<close>: the body runs on each event in turn and
  threads the endpoint's state; an exception that escapes the body ends the loop and
  the coroutine, and is returned beside the state reached.
\<close>

fun async_for ::
  "('ev \<Rightarrow> 's \<Rightarrow> exception + 's) \<Rightarrow> 'ev list \<Rightarrow> 's \<Rightarrow> 's \<times> exception option" where
  "async_for body [] s = (s, None)"
| "async_for body (event # events) s =
     (case body event s of
        Inl e \<Rightarrow> (s, Some e)
      | Inr s' \<Rightarrow> async_for body events s')"

section \<open>The provider-side relay\<close>

text \<open>
  The chain-data provider (\<^verbatim>\<open>BaseLightPeerChain\<close>): one operation per query, each
  returning its payload or raising.
\<close>

record BaseLightPeerChain =
  coro_get_block_header_by_hash :: "Hash32 \<Rightarrow> exception + pyval"
  coro_get_block_body_by_hash :: "Hash32 \<Rightarrow> exception + pyval"
  coro_get_receipts :: "Hash32 \<Rightarrow> exception + pyval"
  coro_get_account :: "Hash32 \<Rightarrow> Address \<Rightarrow> exception + pyval"
  coro_get_contract_code :: "Hash32 \<Rightarrow> Address \<Rightarrow> exception + pyval"

text \<open>
  Modelled from the spec: \<^verbatim>\<open>await_and_wrap_errors\<close> of \<^verbatim>\<open>trinity._utils.async_errors\<close>
  is not among the sources. The specification says of it: any failure raised by the
  provider is captured as data, giving the error field the captured failure and leaving
  the payload unset; a successful result gives the payload and leaves the error unset.
\<close>

definition await_and_wrap_errors :: "exception + pyval \<Rightarrow> pyval \<times> exception option" where
  "await_and_wrap_errors awaitable =
     (case awaitable of
        Inr val \<Rightarrow> (val, None)
      | Inl e \<Rightarrow> (PyNone, Some e))"

definition handle_get_blockheader_by_hash_requests ::
  "BaseLightPeerChain \<Rightarrow> refusal \<Rightarrow> 'cfg event list \<Rightarrow> 'cfg published
     \<Rightarrow> 'cfg published \<times> exception option" where
  "handle_get_blockheader_by_hash_requests chain event_bus incoming =
     async_for (\<lambda>event bus.
         let (val, error) = await_and_wrap_errors
               (coro_get_block_header_by_hash chain (block_hash (request event)))
         in broadcast event_bus
              (new_response (expected_response_type (request event)) val error)
              (broadcast_config event) bus)
       (stream GetBlockHeaderByHashRequest_class incoming)"

definition handle_get_blockbody_by_hash_requests ::
  "BaseLightPeerChain \<Rightarrow> refusal \<Rightarrow> 'cfg event list \<Rightarrow> 'cfg published
     \<Rightarrow> 'cfg published \<times> exception option" where
  "handle_get_blockbody_by_hash_requests chain event_bus incoming =
     async_for (\<lambda>event bus.
         let (val, error) = await_and_wrap_errors
               (coro_get_block_body_by_hash chain (block_hash (request event)))
         in broadcast event_bus
              (new_response (expected_response_type (request event)) val error)
              (broadcast_config event) bus)
       (stream GetBlockBodyByHashRequest_class incoming)"

definition handle_get_receipts_by_hash_requests ::
  "BaseLightPeerChain \<Rightarrow> refusal \<Rightarrow> 'cfg event list \<Rightarrow> 'cfg published
     \<Rightarrow> 'cfg published \<times> exception option" where
  "handle_get_receipts_by_hash_requests chain event_bus incoming =
     async_for (\<lambda>event bus.
         let (val, error) = await_and_wrap_errors
               (coro_get_receipts chain (block_hash (request event)))
         in broadcast event_bus
              (new_response (expected_response_type (request event)) val error)
              (broadcast_config event) bus)
       (stream GetReceiptsRequest_class incoming)"

definition handle_get_account_requests ::
  "BaseLightPeerChain \<Rightarrow> refusal \<Rightarrow> 'cfg event list \<Rightarrow> 'cfg published
     \<Rightarrow> 'cfg published \<times> exception option" where
  "handle_get_account_requests chain event_bus incoming =
     async_for (\<lambda>event bus.
         case address (request event) of
           Inl e \<Rightarrow> Inl e
         | Inr addr \<Rightarrow>
             let (val, error) = await_and_wrap_errors
                   (coro_get_account chain (block_hash (request event)) addr)
             in broadcast event_bus
                  (new_response (expected_response_type (request event)) val error)
                  (broadcast_config event) bus)
       (stream GetAccountRequest_class incoming)"

definition handle_get_contract_code_requests ::
  "BaseLightPeerChain \<Rightarrow> refusal \<Rightarrow> 'cfg event list \<Rightarrow> 'cfg published
     \<Rightarrow> 'cfg published \<times> exception option" where
  "handle_get_contract_code_requests chain event_bus incoming =
     async_for (\<lambda>event bus.
         case address (request event) of
           Inl e \<Rightarrow> Inl e
         | Inr addr \<Rightarrow>
             let (val, error) = await_and_wrap_errors
                   (coro_get_contract_code chain (block_hash (request event)) addr)
             in broadcast event_bus
                  (new_response (expected_response_type (request event)) val error)
                  (broadcast_config event) bus)
       (stream GetContractCodeRequest_class incoming)"

text \<open>
  Modelled from the spec: \<^verbatim>\<open>BaseService\<close> of \<^verbatim>\<open>p2p.service\<close>, the service lifecycle
  framework, is not among the sources. The specification gives it two capabilities: to
  register a long-running task that runs until a shared cancellation signal fires, and
  to start and stop the registered tasks together. A task is a coroutine of the relay:
  given the events that arrive and the endpoint's state, it returns the state it leaves
  and the exception that ended it, if one did.
\<close>

type_synonym 'cfg task =
  "'cfg event list \<Rightarrow> 'cfg published \<Rightarrow> 'cfg published \<times> exception option"

record 'cfg LightPeerChainEventBusHandler =
  chain :: BaseLightPeerChain
  relay_event_bus :: refusal
  daemon_tasks :: "'cfg task list"
  is_cancelled :: bool

text \<open>
  \<^verbatim>\<open>__init__\<close>: a relay holding its provider and its endpoint (\<^verbatim>\<open>self.event_bus\<close>, here
  \<open>relay_event_bus\<close>), with no task registered and not cancelled.
\<close>

definition init :: "BaseLightPeerChain \<Rightarrow> refusal \<Rightarrow> 'cfg LightPeerChainEventBusHandler" where
  "init c event_bus =
     \<lparr>chain = c, relay_event_bus = event_bus, daemon_tasks = [], is_cancelled = False\<rparr>"

definition run_daemon_task ::
  "'cfg task \<Rightarrow> 'cfg LightPeerChainEventBusHandler \<Rightarrow> 'cfg LightPeerChainEventBusHandler" where
  "run_daemon_task awaitable self = self\<lparr>daemon_tasks := daemon_tasks self @ [awaitable]\<rparr>"

definition cancel ::
  "'cfg LightPeerChainEventBusHandler \<Rightarrow> 'cfg LightPeerChainEventBusHandler" where
  "cancel self = self\<lparr>is_cancelled := True\<rparr>"

text \<open>The registered tasks run until the cancellation signal fires.\<close>

definition running_tasks :: "'cfg LightPeerChainEventBusHandler \<Rightarrow> 'cfg task list" where
  "running_tasks self = (if is_cancelled self then [] else daemon_tasks self)"

text \<open>\<^verbatim>\<open>_run\<close>: five calls of \<^verbatim>\<open>run_daemon_task\<close>, in the source's order.\<close>

definition run ::
  "'cfg LightPeerChainEventBusHandler \<Rightarrow> 'cfg LightPeerChainEventBusHandler" where
  "run self =
     (let s1 = run_daemon_task
                 (handle_get_blockheader_by_hash_requests (chain self) (relay_event_bus self)) self;
          s2 = run_daemon_task
                 (handle_get_blockbody_by_hash_requests (chain self) (relay_event_bus self)) s1;
          s3 = run_daemon_task
                 (handle_get_receipts_by_hash_requests (chain self) (relay_event_bus self)) s2;
          s4 = run_daemon_task
                 (handle_get_account_requests (chain self) (relay_event_bus self)) s3;
          s5 = run_daemon_task
                 (handle_get_contract_code_requests (chain self) (relay_event_bus self)) s4
      in s5)"

text \<open>
  What each running task of a relay publishes for the events that arrive, task by task,
  each list in the order its task publishes. The tasks publish through one endpoint in
  an order between them that the scheduler decides, and none is given here; the outcome
  of \<open>broadcast\<close> does not depend on what was published before, so what one task
  publishes does not depend on that order.
\<close>

definition published_by_task ::
  "'cfg LightPeerChainEventBusHandler \<Rightarrow> 'cfg event list \<Rightarrow> 'cfg published list" where
  "published_by_task self incoming = map (\<lambda>task. fst (task incoming [])) (running_tasks self)"

section \<open>The consumer-side facade\<close>

text \<open>
  The facade's endpoint. \<^verbatim>\<open>event_bus.request(event, config)\<close> belongs to the bus: it
  publishes the request toward \<open>config\<close> and resolves with the correlated response, or
  fails with the bus's own timeout or cancellation error. \<open>correlate\<close> is that outcome;
  \<open>requests\<close> records every request the endpoint was asked to send, with its target.
\<close>

record 'cfg TrinityEventBusEndpoint =
  correlate :: "request \<Rightarrow> 'cfg \<Rightarrow> exception + response"
  requests :: "(request \<times> 'cfg) list"

definition event_bus_request ::
  "'cfg TrinityEventBusEndpoint \<Rightarrow> request \<Rightarrow> 'cfg
     \<Rightarrow> (exception + response) \<times> 'cfg TrinityEventBusEndpoint" where
  "event_bus_request event_bus event config =
     (correlate event_bus event config,
      event_bus\<lparr>requests := requests event_bus @ [(event, config)]\<rparr>)"

text \<open>\<^verbatim>\<open>_pass_or_raise\<close>.\<close>

definition pass_or_raise :: "response \<Rightarrow> exception + response" where
  "pass_or_raise response =
     (case error response of
        Some e \<Rightarrow> Inl e
      | None \<Rightarrow> Inr response)"

text \<open>
  The five facade methods. \<^verbatim>\<open>TO_NETWORKING_BROADCAST_CONFIG\<close> is a module constant of
  \<^verbatim>\<open>trinity.constants\<close>, which is not among the sources: its value is a parameter.
  Each method returns its result, or the exception it raises, beside the endpoint's
  state.
\<close>

definition EventBusLightPeerChain_coro_get_block_header_by_hash ::
  "'cfg \<Rightarrow> 'cfg TrinityEventBusEndpoint \<Rightarrow> Hash32
     \<Rightarrow> (exception + pyval) \<times> 'cfg TrinityEventBusEndpoint" where
  "EventBusLightPeerChain_coro_get_block_header_by_hash TO_NETWORKING_BROADCAST_CONFIG
       event_bus hash =
     (let event = GetBlockHeaderByHashRequest hash;
          (answer, event_bus') = event_bus_request event_bus event TO_NETWORKING_BROADCAST_CONFIG
      in (case answer of
            Inl e \<Rightarrow> Inl e
          | Inr response \<Rightarrow>
              (case pass_or_raise response of
                 Inl e \<Rightarrow> Inl e
               | Inr passed \<Rightarrow> getattr_payload passed ''block_header''),
          event_bus'))"

definition EventBusLightPeerChain_coro_get_block_body_by_hash ::
  "'cfg \<Rightarrow> 'cfg TrinityEventBusEndpoint \<Rightarrow> Hash32
     \<Rightarrow> (exception + pyval) \<times> 'cfg TrinityEventBusEndpoint" where
  "EventBusLightPeerChain_coro_get_block_body_by_hash TO_NETWORKING_BROADCAST_CONFIG
       event_bus hash =
     (let event = GetBlockBodyByHashRequest hash;
          (answer, event_bus') = event_bus_request event_bus event TO_NETWORKING_BROADCAST_CONFIG
      in (case answer of
            Inl e \<Rightarrow> Inl e
          | Inr response \<Rightarrow>
              (case pass_or_raise response of
                 Inl e \<Rightarrow> Inl e
               | Inr passed \<Rightarrow> getattr_payload passed ''block_body''),
          event_bus'))"

definition EventBusLightPeerChain_coro_get_receipts ::
  "'cfg \<Rightarrow> 'cfg TrinityEventBusEndpoint \<Rightarrow> Hash32
     \<Rightarrow> (exception + pyval) \<times> 'cfg TrinityEventBusEndpoint" where
  "EventBusLightPeerChain_coro_get_receipts TO_NETWORKING_BROADCAST_CONFIG
       event_bus hash =
     (let event = GetReceiptsRequest hash;
          (answer, event_bus') = event_bus_request event_bus event TO_NETWORKING_BROADCAST_CONFIG
      in (case answer of
            Inl e \<Rightarrow> Inl e
          | Inr response \<Rightarrow>
              (case pass_or_raise response of
                 Inl e \<Rightarrow> Inl e
               | Inr passed \<Rightarrow> getattr_payload passed ''receipts''),
          event_bus'))"

definition EventBusLightPeerChain_coro_get_account ::
  "'cfg \<Rightarrow> 'cfg TrinityEventBusEndpoint \<Rightarrow> Hash32 \<Rightarrow> Address
     \<Rightarrow> (exception + pyval) \<times> 'cfg TrinityEventBusEndpoint" where
  "EventBusLightPeerChain_coro_get_account TO_NETWORKING_BROADCAST_CONFIG
       event_bus hash addr =
     (let event = GetAccountRequest hash addr;
          (answer, event_bus') = event_bus_request event_bus event TO_NETWORKING_BROADCAST_CONFIG
      in (case answer of
            Inl e \<Rightarrow> Inl e
          | Inr response \<Rightarrow>
              (case pass_or_raise response of
                 Inl e \<Rightarrow> Inl e
               | Inr passed \<Rightarrow> getattr_payload passed ''account''),
          event_bus'))"

definition EventBusLightPeerChain_coro_get_contract_code ::
  "'cfg \<Rightarrow> 'cfg TrinityEventBusEndpoint \<Rightarrow> Hash32 \<Rightarrow> Address
     \<Rightarrow> (exception + pyval) \<times> 'cfg TrinityEventBusEndpoint" where
  "EventBusLightPeerChain_coro_get_contract_code TO_NETWORKING_BROADCAST_CONFIG
       event_bus hash addr =
     (let event = GetContractCodeRequest hash addr;
          (answer, event_bus') = event_bus_request event_bus event TO_NETWORKING_BROADCAST_CONFIG
      in (case answer of
            Inl e \<Rightarrow> Inl e
          | Inr response \<Rightarrow>
              (case pass_or_raise response of
                 Inl e \<Rightarrow> Inl e
               | Inr passed \<Rightarrow> getattr_payload passed ''bytez''),
          event_bus'))"

section \<open>Query kinds\<close>

text \<open>
  The specification's table of query kinds with their inputs, used to state a property
  of all five at once: the request a kind is bound to, the provider operation it names,
  and the facade method that issues it.
\<close>

datatype query =
    GetBlockHeaderByHash Hash32
  | GetBlockBodyByHash Hash32
  | GetReceipts Hash32
  | GetAccount Hash32 Address
  | GetContractCode Hash32 Address

fun bound_request :: "query \<Rightarrow> request" where
  "bound_request (GetBlockHeaderByHash h) = GetBlockHeaderByHashRequest h"
| "bound_request (GetBlockBodyByHash h) = GetBlockBodyByHashRequest h"
| "bound_request (GetReceipts h) = GetReceiptsRequest h"
| "bound_request (GetAccount h a) = GetAccountRequest h a"
| "bound_request (GetContractCode h a) = GetContractCodeRequest h a"

fun provider_operation :: "BaseLightPeerChain \<Rightarrow> query \<Rightarrow> exception + pyval" where
  "provider_operation c (GetBlockHeaderByHash h) = coro_get_block_header_by_hash c h"
| "provider_operation c (GetBlockBodyByHash h) = coro_get_block_body_by_hash c h"
| "provider_operation c (GetReceipts h) = coro_get_receipts c h"
| "provider_operation c (GetAccount h a) = coro_get_account c h a"
| "provider_operation c (GetContractCode h a) = coro_get_contract_code c h a"

fun facade_call ::
  "'cfg \<Rightarrow> 'cfg TrinityEventBusEndpoint \<Rightarrow> query
     \<Rightarrow> (exception + pyval) \<times> 'cfg TrinityEventBusEndpoint" where
  "facade_call target bus (GetBlockHeaderByHash h) =
     EventBusLightPeerChain_coro_get_block_header_by_hash target bus h"
| "facade_call target bus (GetBlockBodyByHash h) =
     EventBusLightPeerChain_coro_get_block_body_by_hash target bus h"
| "facade_call target bus (GetReceipts h) =
     EventBusLightPeerChain_coro_get_receipts target bus h"
| "facade_call target bus (GetAccount h a) =
     EventBusLightPeerChain_coro_get_account target bus h a"
| "facade_call target bus (GetContractCode h a) =
     EventBusLightPeerChain_coro_get_contract_code target bus h a"

fun query_of :: "request \<Rightarrow> query" where
  "query_of (GetBlockHeaderByHashRequest h) = GetBlockHeaderByHash h"
| "query_of (GetBlockBodyByHashRequest h) = GetBlockBodyByHash h"
| "query_of (GetReceiptsRequest h) = GetReceipts h"
| "query_of (GetAccountRequest h a) = GetAccount h a"
| "query_of (GetContractCodeRequest h a) = GetContractCode h a"

text \<open>A caller making several facade calls, each awaited before the next.\<close>

fun facade_calls ::
  "'cfg \<Rightarrow> 'cfg TrinityEventBusEndpoint \<Rightarrow> query list
     \<Rightarrow> (exception + pyval) list \<times> 'cfg TrinityEventBusEndpoint" where
  "facade_calls target bus [] = ([], bus)"
| "facade_calls target bus (q # qs) =
     (let (result, bus') = facade_call target bus q;
          (results, bus'') = facade_calls target bus' qs
      in (result # results, bus''))"

section \<open>The relay loops, by subscription\<close>

text \<open>The relay loop whose \<^verbatim>\<open>stream\<close> call names each request class.\<close>

fun subscriber :: "request_type \<Rightarrow> BaseLightPeerChain \<Rightarrow> refusal \<Rightarrow> 'cfg task" where
  "subscriber GetBlockHeaderByHashRequest_class = handle_get_blockheader_by_hash_requests"
| "subscriber GetBlockBodyByHashRequest_class = handle_get_blockbody_by_hash_requests"
| "subscriber GetReceiptsRequest_class = handle_get_receipts_by_hash_requests"
| "subscriber GetAccountRequest_class = handle_get_account_requests"
| "subscriber GetContractCodeRequest_class = handle_get_contract_code_requests"

definition request_types :: "request_type list" where
  "request_types =
     [GetBlockHeaderByHashRequest_class, GetBlockBodyByHashRequest_class,
      GetReceiptsRequest_class, GetAccountRequest_class, GetContractCodeRequest_class]"

text \<open>
  The response a request is answered with, as a function of the provider's outcome,
  and the addressing data it is published with.
\<close>

definition relay_response :: "BaseLightPeerChain \<Rightarrow> 'cfg event \<Rightarrow> response \<times> 'cfg" where
  "relay_response c event =
     (case provider_operation c (query_of (request event)) of
        Inr v \<Rightarrow>
          (\<lparr>response_class = expected_response_type (request event), payload = v,
            error = None\<rparr>, broadcast_config event)
      | Inl e \<Rightarrow>
          (\<lparr>response_class = expected_response_type (request event), payload = PyNone,
            error = Some e\<rparr>, broadcast_config event))"

text \<open>Replacing the addressing data of an event, and of a published item.\<close>

definition readdress :: "('a \<Rightarrow> 'b) \<Rightarrow> 'a event \<Rightarrow> 'b event" where
  "readdress f event = \<lparr>request = request event, broadcast_config = f (broadcast_config event)\<rparr>"

section \<open>A worked scenario\<close>

text \<open>
  The scenario of the specification: the provider knows the header \<open>H\<close> of the block
  with hash \<open>0xAA\<close> and fails with "not found" for every other hash; it has one
  account and no contract code.
\<close>

definition hash_AA :: Hash32 where
  "hash_AA = [0xAA]"

definition hash_BB :: Hash32 where
  "hash_BB = [0xBB]"

definition header_H :: pyval where
  "header_H = PyObject ''BlockHeader'' [0x48]"

definition not_found :: exception where
  "not_found = Exception ''HeaderNotFound'' ''not found''"

definition scenario_chain :: BaseLightPeerChain where
  "scenario_chain =
     \<lparr>coro_get_block_header_by_hash = (\<lambda>h. if h = hash_AA then Inr header_H else Inl not_found),
      coro_get_block_body_by_hash = (\<lambda>h. Inl not_found),
      coro_get_receipts = (\<lambda>h. if h = hash_AA then Inr (PyList []) else Inl not_found),
      coro_get_account =
        (\<lambda>h a. if h = hash_AA then Inr (PyObject ''Account'' a) else Inl not_found),
      coro_get_contract_code = (\<lambda>h a. Inr (PyBytes []))\<rparr>"

text \<open>
  Two endpoints for the relay: one that transports every response, and one that cannot
  convert the provider's \<open>not_found\<close> failure and raises a serialisation error for a
  response carrying it.
\<close>

definition accepting :: refusal where
  "accepting = (\<lambda>item. None)"

definition PicklingError :: exception where
  "PicklingError = Exception ''PicklingError'' ''cannot serialise''"

definition strict_bus :: refusal where
  "strict_bus = (\<lambda>item. if error item = Some not_found then Some PicklingError else None)"

definition scenario_incoming :: "nat event list" where
  "scenario_incoming =
     [\<lparr>request = GetBlockHeaderByHashRequest hash_AA, broadcast_config = 1\<rparr>,
      \<lparr>request = GetAccountRequest hash_BB [0x01], broadcast_config = 2\<rparr>,
      \<lparr>request = GetBlockHeaderByHashRequest hash_BB, broadcast_config = 3\<rparr>,
      \<lparr>request = GetAccountRequest hash_AA [0x01], broadcast_config = 4\<rparr>,
      \<lparr>request = GetBlockHeaderByHashRequest hash_AA, broadcast_config = 5\<rparr>]"

text \<open>
  An endpoint of the facade in the scenario. It has already sent one request. The
  provider side is at address \<open>0\<close>: a request sent there is resolved with the response
  the scenario's provider gives rise to, and a request sent anywhere else times out.
\<close>

definition scenario_endpoint :: "nat TrinityEventBusEndpoint" where
  "scenario_endpoint =
     \<lparr>correlate = (\<lambda>event config.
        if config = 0
        then Inr (fst (relay_response scenario_chain
                        \<lparr>request = event, broadcast_config = 7 :: nat\<rparr>))
        else Inl (Exception ''TimeoutError'' [])),
      requests = [(GetReceiptsRequest hash_AA, 0)]\<rparr>"

section \<open>The catalog binding\<close>

lemma spec_binding_inj: "inj spec_binding"
proof (rule injI)
  fix a b
  assume "spec_binding a = spec_binding b"
  then show "a = b"
    by (cases a; cases b) simp_all
qed

lemma spec_binding_surj: "surj spec_binding"
  unfolding surj_def
proof
  fix r
  show "\<exists>T. r = spec_binding T"
    by (cases r) (metis spec_binding.simps)+
qed

lemma expected_is_bound: "expected_response_type r = spec_binding (type_of r)"
  by (cases r) simp_all

text \<open>
  C4. \<open>expected_response_type\<close> gives each of the five request classes the response
  class the catalog binds it to, whatever the field values of the instance; two requests
  have the same expected response class exactly when they are of the same class; and the
  binding is one-to-one and onto between request classes and response classes.
\<close>

theorem expected_response_type_static_binding:
  "(\<forall>h. expected_response_type (GetBlockHeaderByHashRequest h) = BlockHeaderResponse) \<and>
   (\<forall>h. expected_response_type (GetBlockBodyByHashRequest h) = BlockBodyResponse) \<and>
   (\<forall>h. expected_response_type (GetReceiptsRequest h) = ReceiptsResponse) \<and>
   (\<forall>h a. expected_response_type (GetAccountRequest h a) = AccountResponse) \<and>
   (\<forall>h a. expected_response_type (GetContractCodeRequest h a) = BytesResponse) \<and>
   (\<forall>r r'. (expected_response_type r = expected_response_type r') = (type_of r = type_of r')) \<and>
   (\<forall>r. expected_response_type r = spec_binding (type_of r)) \<and>
   bij spec_binding"
proof -
  have same: "(expected_response_type r = expected_response_type r') = (type_of r = type_of r')"
    for r r'
    using spec_binding_inj by (auto simp: expected_is_bound dest: injD)
  have "bij spec_binding"
    using spec_binding_inj spec_binding_surj by (rule bijI)
  with same show ?thesis
    by (simp add: expected_is_bound)
qed

section \<open>What a relay loop publishes\<close>

text \<open>
  A loop whose body hands one answer per event to \<open>broadcast\<close> publishes the answers
  up to the first one the bus refuses, and ends with that refusal if there is one.
\<close>

lemma async_for_publishes:
  assumes "\<And>event s. event \<in> set events \<Longrightarrow>
             body event s = (case refuses (fst (f event)) of
                               Some e \<Rightarrow> Inl e
                             | None \<Rightarrow> Inr (s @ [f event]))"
  shows "async_for body events s =
           (s @ takeWhile (\<lambda>p. refuses (fst p) = None) (map f events),
            case dropWhile (\<lambda>p. refuses (fst p) = None) (map f events) of
              [] \<Rightarrow> None
            | p # _ \<Rightarrow> refuses (fst p))"
  using assms
proof (induction events arbitrary: s)
  case Nil
  show ?case by simp
next
  case (Cons event events)
  have step: "body event s = (case refuses (fst (f event)) of
                                Some e \<Rightarrow> Inl e
                              | None \<Rightarrow> Inr (s @ [f event]))"
    using Cons.prems by simp
  show ?case
  proof (cases "refuses (fst (f event))")
    case None
    have "async_for body events (s @ [f event]) =
            ((s @ [f event]) @ takeWhile (\<lambda>p. refuses (fst p) = None) (map f events),
             case dropWhile (\<lambda>p. refuses (fst p) = None) (map f events) of
               [] \<Rightarrow> None
             | p # _ \<Rightarrow> refuses (fst p))"
      using Cons.IH Cons.prems by simp
    with step None show ?thesis by simp
  next
    case (Some e)
    with step show ?thesis by simp
  qed
qed

lemma in_stream: "event \<in> set (stream T incoming) \<Longrightarrow> type_of (request event) = T"
  by (simp add: stream_def)

lemmas body_defs =
  await_and_wrap_errors_def broadcast_def new_response_def relay_response_def

lemma blockheader_loop:
  "handle_get_blockheader_by_hash_requests c event_bus incoming bus =
     (bus @ takeWhile (\<lambda>p. event_bus (fst p) = None)
              (map (relay_response c) (stream GetBlockHeaderByHashRequest_class incoming)),
      case dropWhile (\<lambda>p. event_bus (fst p) = None)
              (map (relay_response c) (stream GetBlockHeaderByHashRequest_class incoming)) of
        [] \<Rightarrow> None
      | p # _ \<Rightarrow> event_bus (fst p))"
  unfolding handle_get_blockheader_by_hash_requests_def
proof (rule async_for_publishes)
  fix event :: "'a event" and s :: "'a published"
  assume "event \<in> set (stream GetBlockHeaderByHashRequest_class incoming)"
  then have "type_of (request event) = GetBlockHeaderByHashRequest_class"
    by (rule in_stream)
  then obtain h where "request event = GetBlockHeaderByHashRequest h"
    by (cases "request event") simp_all
  then show "(let (val, error) = await_and_wrap_errors
               (coro_get_block_header_by_hash c (block_hash (request event)))
         in broadcast event_bus
              (new_response (expected_response_type (request event)) val error)
              (broadcast_config event) s) =
         (case event_bus (fst (relay_response c event)) of
            Some e \<Rightarrow> Inl e
          | None \<Rightarrow> Inr (s @ [relay_response c event]))"
    by (simp add: body_defs split: sum.split option.split)
qed

lemma blockbody_loop:
  "handle_get_blockbody_by_hash_requests c event_bus incoming bus =
     (bus @ takeWhile (\<lambda>p. event_bus (fst p) = None)
              (map (relay_response c) (stream GetBlockBodyByHashRequest_class incoming)),
      case dropWhile (\<lambda>p. event_bus (fst p) = None)
              (map (relay_response c) (stream GetBlockBodyByHashRequest_class incoming)) of
        [] \<Rightarrow> None
      | p # _ \<Rightarrow> event_bus (fst p))"
  unfolding handle_get_blockbody_by_hash_requests_def
proof (rule async_for_publishes)
  fix event :: "'a event" and s :: "'a published"
  assume "event \<in> set (stream GetBlockBodyByHashRequest_class incoming)"
  then have "type_of (request event) = GetBlockBodyByHashRequest_class"
    by (rule in_stream)
  then obtain h where "request event = GetBlockBodyByHashRequest h"
    by (cases "request event") simp_all
  then show "(let (val, error) = await_and_wrap_errors
               (coro_get_block_body_by_hash c (block_hash (request event)))
         in broadcast event_bus
              (new_response (expected_response_type (request event)) val error)
              (broadcast_config event) s) =
         (case event_bus (fst (relay_response c event)) of
            Some e \<Rightarrow> Inl e
          | None \<Rightarrow> Inr (s @ [relay_response c event]))"
    by (simp add: body_defs split: sum.split option.split)
qed

lemma receipts_loop:
  "handle_get_receipts_by_hash_requests c event_bus incoming bus =
     (bus @ takeWhile (\<lambda>p. event_bus (fst p) = None)
              (map (relay_response c) (stream GetReceiptsRequest_class incoming)),
      case dropWhile (\<lambda>p. event_bus (fst p) = None)
              (map (relay_response c) (stream GetReceiptsRequest_class incoming)) of
        [] \<Rightarrow> None
      | p # _ \<Rightarrow> event_bus (fst p))"
  unfolding handle_get_receipts_by_hash_requests_def
proof (rule async_for_publishes)
  fix event :: "'a event" and s :: "'a published"
  assume "event \<in> set (stream GetReceiptsRequest_class incoming)"
  then have "type_of (request event) = GetReceiptsRequest_class"
    by (rule in_stream)
  then obtain h where "request event = GetReceiptsRequest h"
    by (cases "request event") simp_all
  then show "(let (val, error) = await_and_wrap_errors
               (coro_get_receipts c (block_hash (request event)))
         in broadcast event_bus
              (new_response (expected_response_type (request event)) val error)
              (broadcast_config event) s) =
         (case event_bus (fst (relay_response c event)) of
            Some e \<Rightarrow> Inl e
          | None \<Rightarrow> Inr (s @ [relay_response c event]))"
    by (simp add: body_defs split: sum.split option.split)
qed

lemma account_loop:
  "handle_get_account_requests c event_bus incoming bus =
     (bus @ takeWhile (\<lambda>p. event_bus (fst p) = None)
              (map (relay_response c) (stream GetAccountRequest_class incoming)),
      case dropWhile (\<lambda>p. event_bus (fst p) = None)
              (map (relay_response c) (stream GetAccountRequest_class incoming)) of
        [] \<Rightarrow> None
      | p # _ \<Rightarrow> event_bus (fst p))"
  unfolding handle_get_account_requests_def
proof (rule async_for_publishes)
  fix event :: "'a event" and s :: "'a published"
  assume "event \<in> set (stream GetAccountRequest_class incoming)"
  then have "type_of (request event) = GetAccountRequest_class"
    by (rule in_stream)
  then obtain h a where "request event = GetAccountRequest h a"
    by (cases "request event") simp_all
  then show "(case address (request event) of
           Inl e \<Rightarrow> Inl e
         | Inr addr \<Rightarrow>
             let (val, error) = await_and_wrap_errors
                   (coro_get_account c (block_hash (request event)) addr)
             in broadcast event_bus
                  (new_response (expected_response_type (request event)) val error)
                  (broadcast_config event) s) =
         (case event_bus (fst (relay_response c event)) of
            Some e \<Rightarrow> Inl e
          | None \<Rightarrow> Inr (s @ [relay_response c event]))"
    by (simp add: body_defs split: sum.split option.split)
qed

lemma contract_code_loop:
  "handle_get_contract_code_requests c event_bus incoming bus =
     (bus @ takeWhile (\<lambda>p. event_bus (fst p) = None)
              (map (relay_response c) (stream GetContractCodeRequest_class incoming)),
      case dropWhile (\<lambda>p. event_bus (fst p) = None)
              (map (relay_response c) (stream GetContractCodeRequest_class incoming)) of
        [] \<Rightarrow> None
      | p # _ \<Rightarrow> event_bus (fst p))"
  unfolding handle_get_contract_code_requests_def
proof (rule async_for_publishes)
  fix event :: "'a event" and s :: "'a published"
  assume "event \<in> set (stream GetContractCodeRequest_class incoming)"
  then have "type_of (request event) = GetContractCodeRequest_class"
    by (rule in_stream)
  then obtain h a where "request event = GetContractCodeRequest h a"
    by (cases "request event") simp_all
  then show "(case address (request event) of
           Inl e \<Rightarrow> Inl e
         | Inr addr \<Rightarrow>
             let (val, error) = await_and_wrap_errors
                   (coro_get_contract_code c (block_hash (request event)) addr)
             in broadcast event_bus
                  (new_response (expected_response_type (request event)) val error)
                  (broadcast_config event) s) =
         (case event_bus (fst (relay_response c event)) of
            Some e \<Rightarrow> Inl e
          | None \<Rightarrow> Inr (s @ [relay_response c event]))"
    by (simp add: body_defs split: sum.split option.split)
qed

lemma subscriber_loop:
  "subscriber T c event_bus incoming bus =
     (bus @ takeWhile (\<lambda>p. event_bus (fst p) = None)
              (map (relay_response c) (stream T incoming)),
      case dropWhile (\<lambda>p. event_bus (fst p) = None)
              (map (relay_response c) (stream T incoming)) of
        [] \<Rightarrow> None
      | p # _ \<Rightarrow> event_bus (fst p))"
  by (cases T)
    (simp_all only: subscriber.simps blockheader_loop blockbody_loop receipts_loop
      account_loop contract_code_loop)

text \<open>The same, read off in the forms the properties below use.\<close>

lemma published_prefix:
  "\<exists>n \<le> length (stream T incoming).
     fst (subscriber T c event_bus incoming bus) =
       bus @ map (relay_response c) (take n (stream T incoming))"
proof -
  let ?P = "\<lambda>p. event_bus (fst p) = None"
  let ?answers = "map (relay_response c) (stream T incoming)"
  let ?n = "length (takeWhile ?P ?answers)"
  have bound: "?n \<le> length (stream T incoming)"
    using length_takeWhile_le [of ?P ?answers] by simp
  have "takeWhile ?P ?answers = take ?n ?answers"
    by (rule takeWhile_eq_take)
  then have "takeWhile ?P ?answers = map (relay_response c) (take ?n (stream T incoming))"
    by (simp only: take_map)
  then have "fst (subscriber T c event_bus incoming bus) =
      bus @ map (relay_response c) (take ?n (stream T incoming))"
    by (simp only: subscriber_loop fst_conv)
  with bound show ?thesis by blast
qed

lemma published_all:
  assumes "\<forall>ev \<in> set (stream T incoming). event_bus (fst (relay_response c ev)) = None"
  shows "subscriber T c event_bus incoming bus =
           (bus @ map (relay_response c) (stream T incoming), None)"
proof -
  let ?P = "\<lambda>p. event_bus (fst p) = None"
  let ?answers = "map (relay_response c) (stream T incoming)"
  have all: "\<forall>p \<in> set ?answers. ?P p"
    using assms by simp
  have "takeWhile ?P ?answers = ?answers"
    using all by (simp only: takeWhile_eq_all_conv) 
  moreover have "dropWhile ?P ?answers = []"
    using all by (simp only: dropWhile_eq_Nil_conv)
  ultimately show ?thesis
    by (simp only: subscriber_loop list.case)
qed

lemma stream_append: "stream T (xs @ ys) = stream T xs @ stream T ys"
  by (simp add: stream_def)



lemma first_refusal:
  "(case dropWhile P xs of [] \<Rightarrow> None | p # _ \<Rightarrow> g p) =
     (if length (takeWhile P xs) < length xs then g (xs ! length (takeWhile P xs)) else None)"
  by (induction xs) simp_all

lemma relay_response_class:
  "response_class (fst (relay_response c event)) = expected_response_type (request event)"
  by (simp add: relay_response_def split: sum.split)

lemma relay_response_config: "snd (relay_response c event) = broadcast_config event"
  by (simp add: relay_response_def split: sum.split)

lemma relay_response_error:
  "error (fst (relay_response c event)) =
     (case provider_operation c (query_of (request event)) of Inl e \<Rightarrow> Some e | Inr v \<Rightarrow> None)"
  by (simp add: relay_response_def split: sum.split)

lemma relay_response_readdress:
  "relay_response c (readdress f event) = apsnd f (relay_response c event)"
  by (simp add: relay_response_def readdress_def split: sum.split)

lemma stream_readdress: "stream T (map (readdress f) incoming) = map (readdress f) (stream T incoming)"
  by (simp add: stream_def readdress_def filter_map o_def)




lemma loop_end:
  "snd (subscriber T c event_bus incoming bus) =
     (if length (fst (subscriber T c event_bus incoming bus)) - length bus
           < length (stream T incoming)
      then event_bus (fst (relay_response c (stream T incoming !
             (length (fst (subscriber T c event_bus incoming bus)) - length bus))))
      else None)"
proof -
  let ?P = "\<lambda>p. event_bus (fst p) = None"
  let ?answers = "map (relay_response c) (stream T incoming)"
  define k where "k = length (takeWhile ?P ?answers)"
  have n: "length (fst (subscriber T c event_bus incoming bus)) - length bus = k"
    by (simp add: subscriber_loop k_def)
  have ended: "snd (subscriber T c event_bus incoming bus) =
          (if k < length ?answers then event_bus (fst (?answers ! k)) else None)"
    unfolding k_def by (simp only: subscriber_loop snd_conv first_refusal)
  show ?thesis
  proof (cases "k < length (stream T incoming)")
    case True
    then have "?answers ! k = relay_response c (stream T incoming ! k)"
      by (rule nth_map)
    with True show ?thesis
      by (simp add: ended n)
  next
    case False
    then show ?thesis
      by (simp add: ended n)
  qed
qed

lemma loop_end_refused:
  assumes "length (fst (subscriber T c event_bus incoming bus)) - length bus
             < length (stream T incoming)"
  shows "snd (subscriber T c event_bus incoming bus) \<noteq> None"
proof -
  let ?P = "\<lambda>p. event_bus (fst p) = None"
  let ?answers = "map (relay_response c) (stream T incoming)"
  define k where "k = length (takeWhile ?P ?answers)"
  have n: "length (fst (subscriber T c event_bus incoming bus)) - length bus = k"
    by (simp add: subscriber_loop k_def)
  have short: "k < length ?answers"
    using assms by (simp add: n)
  then have refused: "\<not> ?P (?answers ! k)"
    unfolding k_def by (rule nth_length_takeWhile)
  have "snd (subscriber T c event_bus incoming bus) =
          (if k < length ?answers then event_bus (fst (?answers ! k)) else None)"
    unfolding k_def by (simp only: subscriber_loop snd_conv first_refusal)
  with short refused show ?thesis
    by simp
qed

lemma published_new_ex:
  "\<exists>k. k = length (drop (length bus) (fst (subscriber T c event_bus incoming bus))) \<and>
        k \<le> length (stream T incoming) \<and>
        take (length bus) (fst (subscriber T c event_bus incoming bus)) = bus \<and>
        drop (length bus) (fst (subscriber T c event_bus incoming bus)) =
          map (relay_response c) (take k (stream T incoming)) \<and>
        fst (subscriber T c event_bus incoming bus) =
          bus @ map (relay_response c) (take k (stream T incoming))"
proof -
  obtain n where n: "n \<le> length (stream T incoming)"
    and out: "fst (subscriber T c event_bus incoming bus) =
                bus @ map (relay_response c) (take n (stream T incoming))"
    using published_prefix [of T incoming c event_bus bus] by blast
  have "n = length (drop (length bus) (fst (subscriber T c event_bus incoming bus)))"
    using n by (simp add: out)
  moreover have "take (length bus) (fst (subscriber T c event_bus incoming bus)) = bus"
    by (simp add: out)
  moreover have "drop (length bus) (fst (subscriber T c event_bus incoming bus)) =
      map (relay_response c) (take n (stream T incoming))"
    by (simp add: out)
  ultimately show ?thesis
    using n out by blast
qed

section \<open>Properties of the relay loops\<close>

text \<open>
  C5. Whatever a relay loop adds to the endpoint, it leaves what was published before
  in place, and every response it publishes is an instance of the response class its
  request expects, which is the class the catalog binds to the request class the loop
  subscribes to: no loop publishes a response of another query kind's class. The
  responses published answer the requests of the loop's stream one by one, in order;
  when the bus refuses none of them, every request of the stream has its response.
\<close>

theorem relay_publishes_bound_response_type:
  "take (length bus) (fst (subscriber T c event_bus incoming bus)) = bus \<and>
   map (response_class \<circ> fst) (drop (length bus) (fst (subscriber T c event_bus incoming bus))) =
     map (expected_response_type \<circ> request)
       (take (length (drop (length bus) (fst (subscriber T c event_bus incoming bus))))
          (stream T incoming)) \<and>
   (\<forall>p \<in> set (drop (length bus) (fst (subscriber T c event_bus incoming bus))).
      response_class (fst p) = spec_binding T) \<and>
   ((\<forall>ev \<in> set (stream T incoming). event_bus (fst (relay_response c ev)) = None) \<longrightarrow>
      map (response_class \<circ> fst)
        (drop (length bus) (fst (subscriber T c event_bus incoming bus))) =
      map (expected_response_type \<circ> request) (stream T incoming))"
proof -
  let ?new = "drop (length bus) (fst (subscriber T c event_bus incoming bus))"
  obtain k where k: "k = length ?new"
    and kept: "take (length bus) (fst (subscriber T c event_bus incoming bus)) = bus"
    and new: "?new = map (relay_response c) (take k (stream T incoming))"
    using published_new_ex [of bus T c event_bus incoming] by blast
  have "map (response_class \<circ> fst) ?new =
      map (expected_response_type \<circ> request) (take k (stream T incoming))"
    by (simp add: new relay_response_class)
  then have classes: "map (response_class \<circ> fst) ?new =
      map (expected_response_type \<circ> request) (take (length ?new) (stream T incoming))"
    by (simp only: k)
  have bound: "\<forall>p \<in> set ?new. response_class (fst p) = spec_binding T"
  proof
    fix p
    assume "p \<in> set ?new"
    then have "p \<in> set (map (relay_response c) (take k (stream T incoming)))"
      by (simp only: new)
    then obtain ev where ev: "ev \<in> set (take k (stream T incoming))"
      and p: "p = relay_response c ev"
      by auto
    from ev have "ev \<in> set (stream T incoming)"
      by (rule in_set_takeD)
    then have "type_of (request ev) = T"
      by (rule in_stream)
    then show "response_class (fst p) = spec_binding T"
      by (simp add: p relay_response_class expected_is_bound)
  qed
  have full: "map (response_class \<circ> fst) ?new =
      map (expected_response_type \<circ> request) (stream T incoming)"
    if "\<forall>ev \<in> set (stream T incoming). event_bus (fst (relay_response c ev)) = None"
    using published_all [OF that, of bus] by (simp add: relay_response_class)
  show ?thesis
    using kept classes bound full by blast
qed

theorem relay_publishes_bound_response_type_witness:
  "map (response_class \<circ> fst)
     (fst (subscriber GetAccountRequest_class scenario_chain accepting scenario_incoming [])) =
     [AccountResponse, AccountResponse] \<and>
   list_all (\<lambda>p. response_class (fst p) = AccountResponse)
     (fst (subscriber GetAccountRequest_class scenario_chain accepting scenario_incoming []))"
proof -
  let ?out = "fst (subscriber GetAccountRequest_class scenario_chain accepting
                scenario_incoming ([] :: nat published))"
  have accepted: "\<forall>ev \<in> set (stream GetAccountRequest_class scenario_incoming).
      accepting (fst (relay_response scenario_chain ev)) = None"
    by (simp add: accepting_def)
  have "map (response_class \<circ> fst) (drop (length ([] :: nat published)) ?out) =
          map (expected_response_type \<circ> request)
            (stream GetAccountRequest_class scenario_incoming)"
    and "\<forall>p \<in> set (drop (length ([] :: nat published)) ?out).
          response_class (fst p) = spec_binding GetAccountRequest_class"
    using accepted relay_publishes_bound_response_type
      [of "[]" GetAccountRequest_class scenario_chain accepting scenario_incoming]
    by blast+
  then show ?thesis
    by (simp del: subscriber.simps add: stream_def scenario_incoming_def list_all_iff)
qed

text \<open>
  C6. The responses a relay loop publishes are addressed, one by one and in order, with
  the \<^verbatim>\<open>broadcast_config\<close> of the requests of its stream that they answer, whatever
  the provider's outcome was; when the bus refuses no response, that is every request
  of the stream. The loop does not look into that value: replacing every addressing
  value by its image under any function \<open>f\<close> changes the loop's output by exactly
  \<open>f\<close> on the addresses and nothing else.
\<close>

theorem relay_forwards_broadcast_config:
  "take (length bus) (fst (subscriber T c event_bus incoming bus)) = bus \<and>
   map snd (drop (length bus) (fst (subscriber T c event_bus incoming bus))) =
     map broadcast_config
       (take (length (drop (length bus) (fst (subscriber T c event_bus incoming bus))))
          (stream T incoming)) \<and>
   ((\<forall>ev \<in> set (stream T incoming). event_bus (fst (relay_response c ev)) = None) \<longrightarrow>
      map snd (drop (length bus) (fst (subscriber T c event_bus incoming bus))) =
      map broadcast_config (stream T incoming)) \<and>
   subscriber T c event_bus (map (readdress f) incoming) (map (apsnd f) bus) =
     apfst (map (apsnd f)) (subscriber T c event_bus incoming bus)"
proof -
  let ?new = "drop (length bus) (fst (subscriber T c event_bus incoming bus))"
  let ?P = "\<lambda>p. event_bus (fst p) = None"
  let ?answers = "map (relay_response c) (stream T incoming)"
  obtain k where k: "k = length ?new"
    and kept: "take (length bus) (fst (subscriber T c event_bus incoming bus)) = bus"
    and new: "?new = map (relay_response c) (take k (stream T incoming))"
    using published_new_ex [of bus T c event_bus incoming] by blast
  have "map snd ?new = map broadcast_config (take k (stream T incoming))"
    by (simp add: new relay_response_config)
  then have addresses: "map snd ?new =
      map broadcast_config (take (length ?new) (stream T incoming))"
    by (simp only: k)
  have full: "map snd ?new = map broadcast_config (stream T incoming)"
    if "\<forall>ev \<in> set (stream T incoming). event_bus (fst (relay_response c ev)) = None"
    using published_all [OF that, of bus] by (simp add: relay_response_config)
  have same: "(?P \<circ> apsnd f) = ?P"
    by (rule ext) simp
  have renamed: "map (relay_response c) (stream T (map (readdress f) incoming)) =
      map (apsnd f) ?answers"
    by (simp add: stream_readdress relay_response_readdress)
  have taken: "takeWhile ?P (map (apsnd f) ?answers) = map (apsnd f) (takeWhile ?P ?answers)"
    by (simp only: takeWhile_map same)
  have dropped: "dropWhile ?P (map (apsnd f) ?answers) = map (apsnd f) (dropWhile ?P ?answers)"
    by (simp only: dropWhile_map same)
  have ended: "(case map (apsnd f) xs of [] \<Rightarrow> None | p # _ \<Rightarrow> event_bus (fst p)) =
      (case xs of [] \<Rightarrow> None | p # _ \<Rightarrow> event_bus (fst p))" for xs :: "(response \<times> 'a) list"
    by (cases xs) simp_all
  have commute: "subscriber T c event_bus (map (readdress f) incoming) (map (apsnd f) bus) =
      apfst (map (apsnd f)) (subscriber T c event_bus incoming bus)"
    by (simp only: subscriber_loop renamed taken dropped ended apfst_conv map_append)
  show ?thesis
    using kept addresses full commute by blast
qed

theorem relay_forwards_broadcast_config_witness:
  "map snd (fst (subscriber GetBlockHeaderByHashRequest_class scenario_chain accepting
      scenario_incoming [])) = [1, 3, 5]"
proof -
  let ?out = "fst (subscriber GetBlockHeaderByHashRequest_class scenario_chain accepting
                scenario_incoming ([] :: nat published))"
  have accepted: "\<forall>ev \<in> set (stream GetBlockHeaderByHashRequest_class scenario_incoming).
      accepting (fst (relay_response scenario_chain ev)) = None"
    by (simp add: accepting_def)
  have "map snd (drop (length ([] :: nat published)) ?out) =
          map broadcast_config (stream GetBlockHeaderByHashRequest_class scenario_incoming)"
    using accepted relay_forwards_broadcast_config
      [of "[]" GetBlockHeaderByHashRequest_class scenario_chain accepting scenario_incoming id]
    by blast
  then show ?thesis
    by (simp del: subscriber.simps add: stream_def scenario_incoming_def)
qed

lemma loop_continues:
  assumes "\<forall>ev \<in> set (stream T incoming). event_bus (fst (relay_response c ev)) = None"
  shows "subscriber T c event_bus (incoming @ later) bus =
           subscriber T c event_bus later (fst (subscriber T c event_bus incoming bus))"
proof -
  let ?P = "\<lambda>p. event_bus (fst p) = None"
  let ?before = "map (relay_response c) (stream T incoming)"
  let ?after = "map (relay_response c) (stream T later)"
  have before: "\<And>p. p \<in> set ?before \<Longrightarrow> ?P p"
    using assms by auto
  have split: "map (relay_response c) (stream T (incoming @ later)) = ?before @ ?after"
    by (simp add: stream_append)
  have tw: "takeWhile ?P (?before @ ?after) = ?before @ takeWhile ?P ?after"
    using before by (rule takeWhile_append2)
  have dw: "dropWhile ?P (?before @ ?after) = dropWhile ?P ?after"
    using before by (rule dropWhile_append2)
  have reached: "fst (subscriber T c event_bus incoming bus) = bus @ ?before"
    using published_all [OF assms, of bus] by simp
  show ?thesis
    by (simp only: reached)
      (simp only: subscriber_loop split tw dw append_assoc)
qed

text \<open>
  C3. Every response a relay loop publishes carries, in its error field,
  the failure the provider raised for the request it answers, and no error when the
  provider returned: a provider failure is data. The loop is never ended by a provider
  failure as such: it ends without an exception exactly when it has published one
  response per request of its stream, and when it ends with one, that exception is the
  bus's refusal of the response to the first unanswered request. When the bus refuses
  none of the responses, the loop ends with no exception, has published one response
  per request, failed or not, and goes on with later requests from the state it reached.
\<close>

theorem relay_loop_captures_failures:
  "map (error \<circ> fst) (drop (length bus) (fst (subscriber T c event_bus incoming bus))) =
     map (\<lambda>event. case provider_operation c (query_of (request event)) of
                     Inl e \<Rightarrow> Some e | Inr v \<Rightarrow> None)
       (take (length (drop (length bus) (fst (subscriber T c event_bus incoming bus))))
          (stream T incoming)) \<and>
   (snd (subscriber T c event_bus incoming bus) = None) =
     (length (fst (subscriber T c event_bus incoming bus)) =
        length bus + length (stream T incoming)) \<and>
   (snd (subscriber T c event_bus incoming bus) \<noteq> None \<longrightarrow>
      length (fst (subscriber T c event_bus incoming bus)) - length bus
        < length (stream T incoming) \<and>
      snd (subscriber T c event_bus incoming bus) =
        event_bus (fst (relay_response c (stream T incoming !
          (length (fst (subscriber T c event_bus incoming bus)) - length bus))))) \<and>
   ((\<forall>ev \<in> set (stream T incoming). event_bus (fst (relay_response c ev)) = None) \<longrightarrow>
      snd (subscriber T c event_bus incoming bus) = None \<and>
      length (fst (subscriber T c event_bus incoming bus)) =
        length bus + length (stream T incoming) \<and>
      map (error \<circ> fst) (drop (length bus) (fst (subscriber T c event_bus incoming bus))) =
        map (\<lambda>event. case provider_operation c (query_of (request event)) of
                        Inl e \<Rightarrow> Some e | Inr v \<Rightarrow> None) (stream T incoming) \<and>
      subscriber T c event_bus (incoming @ later) bus =
        subscriber T c event_bus later (fst (subscriber T c event_bus incoming bus)))"
proof -
  let ?out = "subscriber T c event_bus incoming bus"
  let ?new = "drop (length bus) (fst ?out)"
  let ?outcome = "\<lambda>event. case provider_operation c (query_of (request event)) of
                     Inl e \<Rightarrow> Some e | Inr v \<Rightarrow> None"
  obtain k where k: "k = length ?new"
    and le: "k \<le> length (stream T incoming)"
    and new: "?new = map (relay_response c) (take k (stream T incoming))"
    and out: "fst ?out = bus @ map (relay_response c) (take k (stream T incoming))"
    using published_new_ex [of bus T c event_bus incoming] by blast
  have len: "length (fst ?out) = length bus + k"
    using le by (simp add: out)
  have "map (error \<circ> fst) ?new = map ?outcome (take k (stream T incoming))"
    by (simp add: new relay_response_error)
  then have errors: "map (error \<circ> fst) ?new =
      map ?outcome (take (length ?new) (stream T incoming))"
    by (simp only: k)
  have ends: "(snd ?out = None) = (length (fst ?out) = length bus + length (stream T incoming))"
  proof (cases "k < length (stream T incoming)")
    case True
    then have "length (fst ?out) - length bus < length (stream T incoming)"
      by (simp add: len)
    then have "snd ?out \<noteq> None"
      by (rule loop_end_refused)
    with True show ?thesis
      by (simp add: len)
  next
    case False
    then have "snd ?out = None"
      by (simp add: loop_end [of T c event_bus incoming bus] len)
    with False le show ?thesis
      by (simp add: len)
  qed
  have refused: "length (fst ?out) - length bus < length (stream T incoming) \<and>
      snd ?out = event_bus (fst (relay_response c (stream T incoming !
        (length (fst ?out) - length bus))))"
    if "snd ?out \<noteq> None"
  proof -
    have short: "length (fst ?out) - length bus < length (stream T incoming)"
      using that ends le by (simp add: len)
    then show ?thesis
      by (simp add: loop_end [of T c event_bus incoming bus])
  qed
  have accepted: "snd ?out = None \<and>
      length (fst ?out) = length bus + length (stream T incoming) \<and>
      map (error \<circ> fst) ?new = map ?outcome (stream T incoming) \<and>
      subscriber T c event_bus (incoming @ later) bus =
        subscriber T c event_bus later (fst ?out)"
    if all: "\<forall>ev \<in> set (stream T incoming). event_bus (fst (relay_response c ev)) = None"
    using published_all [OF all, of bus] loop_continues [OF all, of later bus]
    by (simp add: relay_response_error)
  show ?thesis
    using errors ends refused accepted by blast
qed

theorem relay_loop_captures_failures_witness:
  "subscriber GetBlockHeaderByHashRequest_class scenario_chain accepting scenario_incoming
     ([] :: nat published) =
     ([(\<lparr>response_class = BlockHeaderResponse, payload = header_H, error = None\<rparr>, 1),
       (\<lparr>response_class = BlockHeaderResponse, payload = PyNone, error = Some not_found\<rparr>, 3),
       (\<lparr>response_class = BlockHeaderResponse, payload = header_H, error = None\<rparr>, 5)],
      None) \<and>
   map (error \<circ> fst)
     (fst (subscriber GetBlockHeaderByHashRequest_class scenario_chain accepting
        scenario_incoming ([] :: nat published))) = [None, Some not_found, None] \<and>
   length (fst (subscriber GetBlockHeaderByHashRequest_class scenario_chain strict_bus
        scenario_incoming ([] :: nat published))) = 1 \<and>
   snd (subscriber GetBlockHeaderByHashRequest_class scenario_chain strict_bus
        scenario_incoming ([] :: nat published)) = Some PicklingError"
proof -
  let ?T = GetBlockHeaderByHashRequest_class
  have headers: "stream ?T scenario_incoming =
      [\<lparr>request = GetBlockHeaderByHashRequest hash_AA, broadcast_config = 1\<rparr>,
       \<lparr>request = GetBlockHeaderByHashRequest hash_BB, broadcast_config = 3\<rparr>,
       \<lparr>request = GetBlockHeaderByHashRequest hash_AA, broadcast_config = 5\<rparr>]"
    by (simp add: stream_def scenario_incoming_def)
  have accepted: "\<forall>ev \<in> set (stream ?T scenario_incoming).
      accepting (fst (relay_response scenario_chain ev)) = None"
    by (simp add: accepting_def)
  have good: "snd (subscriber ?T scenario_chain accepting scenario_incoming
        ([] :: nat published)) = None"
    and errors: "map (error \<circ> fst) (drop (length ([] :: nat published))
        (fst (subscriber ?T scenario_chain accepting scenario_incoming []))) =
        map (\<lambda>event. case provider_operation scenario_chain (query_of (request event)) of
                        Inl e \<Rightarrow> Some e | Inr v \<Rightarrow> None) (stream ?T scenario_incoming)"
    using accepted relay_loop_captures_failures
      [of "[]" ?T scenario_chain accepting scenario_incoming "[]"]
    by blast+
  have all: "subscriber ?T scenario_chain accepting scenario_incoming ([] :: nat published) =
     ([(\<lparr>response_class = BlockHeaderResponse, payload = header_H, error = None\<rparr>, 1),
       (\<lparr>response_class = BlockHeaderResponse, payload = PyNone, error = Some not_found\<rparr>, 3),
       (\<lparr>response_class = BlockHeaderResponse, payload = header_H, error = None\<rparr>, 5)],
      None)"
    by (simp only: subscriber_loop headers)
      (simp add: relay_response_def scenario_chain_def accepting_def hash_AA_def hash_BB_def)
  have listed: "map (error \<circ> fst) (fst (subscriber ?T scenario_chain accepting
        scenario_incoming ([] :: nat published))) = [None, Some not_found, None]"
    using errors
    by (simp del: subscriber.simps add: headers scenario_chain_def hash_AA_def hash_BB_def)
  have strict: "subscriber ?T scenario_chain strict_bus scenario_incoming
        ([] :: nat published) =
      ([(\<lparr>response_class = BlockHeaderResponse, payload = header_H, error = None\<rparr>, 1)],
       Some PicklingError)"
    by (simp only: subscriber_loop headers)
      (simp add: relay_response_def scenario_chain_def strict_bus_def hash_AA_def hash_BB_def)
  show ?thesis
    using all listed strict by simp
qed

text \<open>
  The condition on the bus cannot be dropped: with a bus that cannot convert the
  provider's \<open>not_found\<close> failure, the header loop of the scenario is ended by the
  exception \<open>broadcast\<close> raises for the second of its three requests, the one the
  provider failed; it has published one response and never consumes the third request.
\<close>

theorem relay_loop_ended_by_refusal:
  "provider_operation scenario_chain (GetBlockHeaderByHash hash_BB) = Inl not_found \<and>
   length (stream GetBlockHeaderByHashRequest_class scenario_incoming) = 3 \<and>
   handle_get_blockheader_by_hash_requests scenario_chain strict_bus scenario_incoming
     ([] :: nat published) =
     ([(\<lparr>response_class = BlockHeaderResponse, payload = header_H, error = None\<rparr>, 1)],
      Some PicklingError)"
  by (simp add: handle_get_blockheader_by_hash_requests_def stream_def scenario_incoming_def
      await_and_wrap_errors_def broadcast_def new_response_def strict_bus_def
      scenario_chain_def hash_AA_def hash_BB_def)

section \<open>The facade\<close>

lemmas facade_defs =
  EventBusLightPeerChain_coro_get_block_header_by_hash_def
  EventBusLightPeerChain_coro_get_block_body_by_hash_def
  EventBusLightPeerChain_coro_get_receipts_def
  EventBusLightPeerChain_coro_get_account_def
  EventBusLightPeerChain_coro_get_contract_code_def

lemma facade_call_result:
  "fst (facade_call target bus q) =
     (case correlate bus (bound_request q) target of
        Inl e \<Rightarrow> Inl e
      | Inr r \<Rightarrow>
          (case error r of
             Some e \<Rightarrow> Inl e
           | None \<Rightarrow> getattr_payload r (payload_field (expected_response_type (bound_request q)))))"
  by (cases q)
    (simp_all add: facade_defs event_bus_request_def pass_or_raise_def
      split: sum.split option.split)

lemma facade_call_endpoint:
  "snd (facade_call target bus q) =
     bus\<lparr>requests := requests bus @ [(bound_request q, target)]\<rparr>"
  by (cases q) (simp_all add: facade_defs event_bus_request_def Let_def)

lemma facade_calls_endpoint:
  "snd (facade_calls target bus qs) =
     bus\<lparr>requests := requests bus @ map (\<lambda>q. (bound_request q, target)) qs\<rparr>"
proof (induction qs arbitrary: bus)
  case Nil
  show ?case by simp
next
  case (Cons q qs)
  have "snd (facade_calls target bus (q # qs)) =
          snd (facade_calls target (snd (facade_call target bus q)) qs)"
    by (simp add: split_beta Let_def)
  then show ?case
    by (simp add: Cons.IH facade_call_endpoint)
qed

lemma facade_calls_length: "length (fst (facade_calls target bus qs)) = length qs"
  by (induction qs arbitrary: bus) (simp_all add: split_beta Let_def)

section \<open>Round trips\<close>






section \<open>Starting and stopping the relay\<close>

lemma run_init:
  "run (init c event_bus) =
     \<lparr>chain = c, relay_event_bus = event_bus,
      daemon_tasks = map (\<lambda>T. subscriber T c event_bus) request_types,
      is_cancelled = False\<rparr>"
  by (simp add: run_def init_def run_daemon_task_def request_types_def)

lemma running_tasks_run_init:
  "running_tasks (run (init c event_bus)) = map (\<lambda>T. subscriber T c event_bus) request_types"
  by (simp add: run_init running_tasks_def)

lemma stream_single:
  "stream T [event] = (if type_of (request event) = T then [event] else [])"
  by (simp add: stream_def)

lemma reacts_single:
  "(subscriber T c event_bus [event] [] \<noteq> ([], None)) = (type_of (request event) = T)"
  by (cases "event_bus (fst (relay_response c event))")
    (simp_all only: subscriber_loop stream_single, simp_all)

lemma answers_single:
  assumes "event_bus (fst (relay_response c event)) = None"
  shows "(fst (subscriber T c event_bus [event] []) \<noteq> []) = (type_of (request event) = T)"
  using assms by (simp only: subscriber_loop stream_single) simp

lemma one_subscriber:
  "length (filter (\<lambda>T. type_of r = T) request_types) = 1"
  by (cases "type_of r") (simp_all add: request_types_def)

text \<open>
  C7. \<^verbatim>\<open>_run\<close> on a fresh relay registers the five relay loops, in the source's order,
  and they are the loops subscribed to the five request classes, each class once and no
  class missing. There are five running tasks, and for any request event exactly one of
  them reacts to it, by publishing or by ending on the bus's refusal; when the bus
  transports the response to the event, exactly one of them publishes a response.
  After \<open>cancel\<close> no task is running and the relay publishes nothing.
\<close>

theorem run_starts_one_task_per_query_kind:
  "daemon_tasks (run (init c event_bus)) =
     [handle_get_blockheader_by_hash_requests c event_bus,
      handle_get_blockbody_by_hash_requests c event_bus,
      handle_get_receipts_by_hash_requests c event_bus,
      handle_get_account_requests c event_bus,
      handle_get_contract_code_requests c event_bus] \<and>
   running_tasks (run (init c event_bus)) =
     map (\<lambda>T. subscriber T c event_bus) request_types \<and>
   distinct request_types \<and> set request_types = UNIV \<and>
   length (running_tasks (run (init c event_bus))) = 5 \<and>
   (\<forall>event. length (filter (\<lambda>task. task [event] [] \<noteq> ([], None))
                 (running_tasks (run (init c event_bus)))) = 1) \<and>
   (\<forall>event. event_bus (fst (relay_response c event)) = None \<longrightarrow>
      length (filter (\<lambda>task. fst (task [event] []) \<noteq> [])
                 (running_tasks (run (init c event_bus)))) = 1) \<and>
   (\<forall>event. length (filter (\<lambda>task. fst (task [event] []) \<noteq> [])
                 (running_tasks (run (init c accepting)))) = 1) \<and>
   running_tasks (cancel (run (init c event_bus))) = [] \<and>
   (\<forall>incoming. published_by_task (cancel (run (init c event_bus))) incoming = [])"
proof -
  have tasks: "daemon_tasks (run (init c event_bus)) =
     [handle_get_blockheader_by_hash_requests c event_bus,
      handle_get_blockbody_by_hash_requests c event_bus,
      handle_get_receipts_by_hash_requests c event_bus,
      handle_get_account_requests c event_bus,
      handle_get_contract_code_requests c event_bus]"
    by (simp add: run_init request_types_def)
  have running: "running_tasks (run (init c event_bus)) =
      map (\<lambda>T. subscriber T c event_bus) request_types"
    by (rule running_tasks_run_init)
  have different: "distinct request_types"
    by (simp add: request_types_def)
  have all: "set request_types = UNIV"
  proof -
    have "T \<in> set request_types" for T
      by (cases T) (simp_all add: request_types_def)
    then show ?thesis by blast
  qed
  have five: "length (running_tasks (run (init c event_bus))) = 5"
    by (simp only: running length_map) (simp add: request_types_def)
  have reacts: "\<forall>event. length (filter (\<lambda>task. task [event] [] \<noteq> ([], None))
                 (running_tasks (run (init c event_bus)))) = 1"
  proof
    fix event
    have "filter (\<lambda>task. task [event] [] \<noteq> ([], None)) (running_tasks (run (init c event_bus))) =
            map (\<lambda>T. subscriber T c event_bus)
              (filter (\<lambda>T. type_of (request event) = T) request_types)"
      by (simp only: running_tasks_run_init filter_map o_def reacts_single)
    then show "length (filter (\<lambda>task. task [event] [] \<noteq> ([], None))
                 (running_tasks (run (init c event_bus)))) = 1"
      by (simp only: length_map one_subscriber)
  qed
  have answers: "length (filter (\<lambda>task. fst (task [event] []) \<noteq> [])
                 (running_tasks (run (init c bus')))) = 1"
    if accepts: "bus' (fst (relay_response c event)) = None" for event bus'
  proof -
    have "filter (\<lambda>task. fst (task [event] []) \<noteq> []) (running_tasks (run (init c bus'))) =
            map (\<lambda>T. subscriber T c bus')
              (filter (\<lambda>T. type_of (request event) = T) request_types)"
      using answers_single [of bus' c event, OF accepts]
      by (simp only: running_tasks_run_init filter_map o_def)
    then show ?thesis
      by (simp only: length_map one_subscriber)
  qed
  have one: "\<forall>event. event_bus (fst (relay_response c event)) = None \<longrightarrow>
      length (filter (\<lambda>task. fst (task [event] []) \<noteq> [])
                 (running_tasks (run (init c event_bus)))) = 1"
    using answers by blast
  have one_accepting: "\<forall>event. length (filter (\<lambda>task. fst (task [event] []) \<noteq> [])
                 (running_tasks (run (init c accepting)))) = 1"
  proof
    fix event
    have "accepting (fst (relay_response c event)) = None"
      by (simp add: accepting_def)
    then show "length (filter (\<lambda>task. fst (task [event] []) \<noteq> [])
                 (running_tasks (run (init c accepting)))) = 1"
      by (rule answers)
  qed
  have stopped: "running_tasks (cancel (run (init c event_bus))) = []"
    by (simp add: running_tasks_def cancel_def)
  have silent: "\<forall>incoming. published_by_task (cancel (run (init c event_bus))) incoming = []"
    by (simp add: published_by_task_def stopped)
  show ?thesis
    using tasks running different all five reacts one one_accepting stopped silent by blast
qed

theorem run_starts_one_task_per_query_kind_witness:
  "length (filter (\<lambda>task. fst (task
       [\<lparr>request = GetAccountRequest hash_AA [0x01], broadcast_config = 4 :: nat\<rparr>] []) \<noteq> [])
     (running_tasks (run (init scenario_chain strict_bus)))) = 1 \<and>
   running_tasks (cancel (run (init scenario_chain strict_bus)))
     = ([] :: nat task list)"
proof -
  let ?event = "\<lparr>request = GetAccountRequest hash_AA [0x01], broadcast_config = 4 :: nat\<rparr>"
  have accepts: "strict_bus (fst (relay_response scenario_chain ?event)) = None"
    by (simp add: strict_bus_def relay_response_def scenario_chain_def)
  show ?thesis
    using accepts run_starts_one_task_per_query_kind [of scenario_chain strict_bus]
    by blast
qed

section \<open>Properties of the facade\<close>

text \<open>
  C8. A facade call of any query kind asks its endpoint to send exactly one request:
  the request bound to the query, built from the call's arguments, targeted at
  \<^verbatim>\<open>TO_NETWORKING_BROADCAST_CONFIG\<close>, whatever the outcome of the call; it changes
  nothing else of the endpoint. A sequence of calls sends one request per call, in
  order, all with that same target, also when a query is repeated.
\<close>

theorem facade_call_is_one_request:
  "requests (snd (facade_call target bus q)) = requests bus @ [(bound_request q, target)] \<and>
   correlate (snd (facade_call target bus q)) = correlate bus \<and>
   requests (snd (facade_calls target bus qs)) =
     requests bus @ map (\<lambda>q. (bound_request q, target)) qs \<and>
   length (fst (facade_calls target bus qs)) = length qs"
  by (simp add: facade_call_endpoint facade_calls_endpoint facade_calls_length)

theorem facade_call_is_one_request_witness:
  "requests (snd (facade_calls 0 scenario_endpoint
      [GetBlockHeaderByHash hash_AA, GetAccount hash_AA [], GetBlockHeaderByHash hash_AA])) =
     [(GetReceiptsRequest hash_AA, 0),
      (GetBlockHeaderByHashRequest hash_AA, 0), (GetAccountRequest hash_AA [], 0),
      (GetBlockHeaderByHashRequest hash_AA, 0)]"
  using facade_call_is_one_request
    [of 0 scenario_endpoint "GetReceipts []"
      "[GetBlockHeaderByHash hash_AA, GetAccount hash_AA [], GetBlockHeaderByHash hash_AA]"]
  by (simp add: scenario_endpoint_def del: facade_calls.simps facade_call.simps)

text \<open>
  C10. When the correlated response is of the expected class and its error field is
  unset, \<^verbatim>\<open>_pass_or_raise\<close> passes it on and the facade call returns its payload
  field whatever it holds; with the payload \<^verbatim>\<open>None\<close> the call returns \<^verbatim>\<open>None\<close>
  instead of raising.
\<close>

theorem unset_error_is_success:
  assumes "correlate bus (bound_request q) target = Inr r"
    and "error r = None"
    and "response_class r = expected_response_type (bound_request q)"
  shows "pass_or_raise r = Inr r \<and>
         fst (facade_call target bus q) = Inr (payload r) \<and>
         (payload r = PyNone \<longrightarrow> fst (facade_call target bus q) = Inr PyNone)"
  using assms
  by (simp add: pass_or_raise_def facade_call_result getattr_payload_def)

theorem unset_error_is_success_witness:
  "fst (facade_call (0 :: nat)
         \<lparr>correlate = (\<lambda>event config.
             Inr \<lparr>response_class = BlockHeaderResponse, payload = PyNone, error = None\<rparr>),
          requests = []\<rparr>
         (GetBlockHeaderByHash hash_AA)) = Inr PyNone"
  using unset_error_is_success
    [of "\<lparr>correlate = (\<lambda>event config.
             Inr \<lparr>response_class = BlockHeaderResponse, payload = PyNone, error = None\<rparr>),
          requests = []\<rparr>" "GetBlockHeaderByHash hash_AA" "0 :: nat"
        "\<lparr>response_class = BlockHeaderResponse, payload = PyNone, error = None\<rparr>"]
  by (simp del: facade_call.simps)

end
